theory Spec2Isabelle
  imports Main "HOL-Library.Word" "HOL-Library.Signed_Division"
begin

unbundle bit_operations_syntax

section \<open>The exclusion video effect (gstexclusion.c)\<close>

subsection \<open>Machine integers\<close>

text \<open>
  \<open>guint32\<close> and \<open>gint\<close> are both 32 bits wide. A \<open>gint\<close> is kept as the 32-bit
  word of its two's complement representation and read with \<open>sint\<close>; the
  conversions between \<open>gint\<close> and \<open>guint32\<close> that the C code performs
  implicitly are then the identity on the representation.
\<close>

type_synonym guint32 = "32 word"
type_synonym gint = "32 word"

subsection \<open>Keeping the values in bounds: \<open>gate_int\<close>\<close>

text \<open>
  \<open>gate_int (gint value, gint min, gint max)\<close>: the comparisons are signed.
\<close>

definition gate_int :: "gint \<Rightarrow> gint \<Rightarrow> gint \<Rightarrow> gint" where
  "gate_int v lo hi =
     (if v <s lo then lo
      else if hi <s v then hi
      else v)"

subsection \<open>The body of the loop of \<open>transform\<close>\<close>

text \<open>
  \<open>gint factor = 175\<close>. In every expression of the loop \<open>factor\<close> meets a
  \<open>guint32\<close> operand, so the usual arithmetic conversions turn it into a
  \<open>guint32\<close> and the whole expression is computed modulo \<open>2 ^ 32\<close>, with
  unsigned division.
\<close>

definition factor :: guint32 where
  "factor = 175"

text \<open>The three unpacking statements.\<close>

definition red_of :: "guint32 \<Rightarrow> guint32" where
  "red_of p = drop_bit 16 p AND 0xff"

definition green_of :: "guint32 \<Rightarrow> guint32" where
  "green_of p = drop_bit 8 p AND 0xff"

definition blue_of :: "guint32 \<Rightarrow> guint32" where
  "blue_of p = p AND 0xff"

text \<open>
  The three assignments that follow. The one to \<open>red\<close> multiplies
  \<open>green * red\<close>; those to \<open>green\<close> and \<open>blue\<close> square their own channel.
  \<open>a * b / c\<close> is \<open>(a * b) / c\<close> in C.
\<close>

definition exclusion_red :: "guint32 \<Rightarrow> guint32 \<Rightarrow> guint32" where
  "exclusion_red red green =
     factor - ((((factor - red) * (factor - red)) div factor) + ((green * red) div factor))"

definition exclusion_green :: "guint32 \<Rightarrow> guint32" where
  "exclusion_green green =
     factor - ((((factor - green) * (factor - green)) div factor) + ((green * green) div factor))"

definition exclusion_blue :: "guint32 \<Rightarrow> guint32" where
  "exclusion_blue blue =
     factor - ((((factor - blue) * (factor - blue)) div factor) + ((blue * blue) div factor))"

text \<open>
  One iteration of the loop, from the pixel read through \<open>*src++\<close> to the
  pixel written through \<open>*dest++\<close>. The variables are assigned in the order
  of the source: \<open>red\<close> is overwritten first, and the later assignments to
  \<open>green\<close> and \<open>blue\<close> do not read it.
\<close>

definition transform_pixel :: "guint32 \<Rightarrow> guint32" where
  "transform_pixel p =
     (let red = red_of p;
          green = green_of p;
          blue = blue_of p;
          red = exclusion_red red green;
          green = exclusion_green green;
          blue = exclusion_blue blue;
          red = gate_int red 0 255;
          green = gate_int green 0 255;
          blue = gate_int blue 0 255
      in push_bit 16 red OR push_bit 8 green OR blue)"


subsection \<open>Buffers\<close>

text \<open>
  The memory the element works on is the data of the allocated buffers, seen as
  32-bit pixels as the casts to \<open>guint32 *\<close> in \<open>gst_exclusion_chain\<close> see
  it. A buffer is named by its index in the heap; a pointer is a buffer and an
  offset in pixels. A read or a write outside a buffer is undefined behaviour in
  C: here it is a \<open>fault\<close>, and the computation stops with it.
\<close>

type_synonym addr = nat
type_synonym heap = "guint32 list list"
type_synonym ptr = "addr \<times> nat"

datatype fault = InvalidBuffer | OutOfBounds

definition load :: "heap \<Rightarrow> ptr \<Rightarrow> fault + guint32" where
  "load h p =
     (case p of (a, i) \<Rightarrow>
        if a < length h
        then (if i < length (h ! a) then Inr (h ! a ! i) else Inl OutOfBounds)
        else Inl InvalidBuffer)"

definition store :: "heap \<Rightarrow> ptr \<Rightarrow> guint32 \<Rightarrow> fault + heap" where
  "store h p v =
     (case p of (a, i) \<Rightarrow>
        if a < length h
        then (if i < length (h ! a) then Inr (h[a := (h ! a)[i := v]]) else Inl OutOfBounds)
        else Inl InvalidBuffer)"

text \<open>\<open>p++\<close> on a \<open>guint32 *\<close>.\<close>

definition ptr_incr :: "ptr \<Rightarrow> ptr" where
  "ptr_incr p = (case p of (a, i) \<Rightarrow> (a, Suc i))"

text \<open>
  \<open>gst_buffer_copy\<close> is the framework's: it allocates a new buffer and copies
  the data of the given one into it.
\<close>

definition gst_buffer_copy :: "heap \<Rightarrow> addr \<Rightarrow> fault + heap \<times> addr" where
  "gst_buffer_copy h b =
     (if b < length h then Inr (h @ [h ! b], length h) else Inl InvalidBuffer)"

subsection \<open>\<open>transform\<close>\<close>

text \<open>
  The loop \<open>for (x = 0; x < video_area; x++)\<close>, from the value of \<open>x\<close> on. The
  comparison is signed; \<open>x + 1\<close> cannot overflow, since \<open>x < video_area\<close>.
\<close>

function transform_loop :: "ptr \<Rightarrow> ptr \<Rightarrow> gint \<Rightarrow> gint \<Rightarrow> heap \<Rightarrow> fault + heap" where
  "transform_loop src dest video_area x h =
     (if x <s video_area then
        (case load h src of
           Inl e \<Rightarrow> Inl e
         | Inr p \<Rightarrow>
             (case store h dest (transform_pixel p) of
                Inl e \<Rightarrow> Inl e
              | Inr h' \<Rightarrow> transform_loop (ptr_incr src) (ptr_incr dest) video_area (x + 1) h'))
      else Inr h)"
  by pat_completeness auto
termination
proof (relation "measure (\<lambda>(src, dest, video_area, x, h). nat (sint video_area - sint x))")
  show "wf (measure (\<lambda>(src, dest, video_area, x, h). nat (sint video_area - sint x)))"
    by simp
next
  fix video_area x :: gint and src dest :: ptr and h h' :: heap
  assume less: "x <s video_area"
  have "sint video_area < 2 ^ 31" using sint_lt [of video_area] by simp
  moreover have "- (2 ^ 31) \<le> sint x" using sint_ge [of x] by simp
  ultimately have "signed_take_bit 31 (sint x + 1) = sint x + 1"
    using less by (intro signed_take_bit_int_eq_self) (simp_all add: word_sless_alt)
  then have "sint (x + 1) = sint x + 1"
    by (simp add: sint_word_ariths)
  then show "((ptr_incr src, ptr_incr dest, video_area, x + 1, h'), (src, dest, video_area, x, h))
        \<in> measure (\<lambda>(src, dest, video_area, x, h). nat (sint video_area - sint x))"
    using less by (simp add: word_sless_alt)
qed

definition transform :: "ptr \<Rightarrow> ptr \<Rightarrow> gint \<Rightarrow> heap \<Rightarrow> fault + heap" where
  "transform src dest video_area h = transform_loop src dest video_area 0 h"

subsection \<open>The element\<close>

text \<open>
  The source's variable \<open>filter\<close> is \<open>filt\<close> below.
\<close>

text \<open>
  Modelled from the spec: the declaration of \<open>struct Gstexclusion\<close> is in
  \<open>gstexclusion.h\<close>, which is not among the sources. The specification's
  FilterState holds the negotiated width and height; the record has these two
  and \<open>silent\<close>, the fields that the source reads and writes (the two pads
  apart). \<open>width\<close> and \<open>height\<close> are passed to \<open>gst_structure_get_int\<close>,
  which takes a \<open>gint *\<close>.

  The framework hands \<open>gst_exclusion_init\<close> an instance whose memory is
  filled with zeros, and \<open>gst_exclusion_init\<close> assigns \<open>silent\<close> only: until
  \<open>gst_exclusion_set_caps\<close> runs, \<open>width\<close> and \<open>height\<close> are 0.
\<close>

record Gstexclusion =
  silent :: bool
  width :: gint
  height :: gint

definition zeroed_instance :: Gstexclusion where
  "zeroed_instance = \<lparr>silent = False, width = 0, height = 0\<rparr>"

definition gst_exclusion_init :: "Gstexclusion \<Rightarrow> Gstexclusion" where
  "gst_exclusion_init filt = filt\<lparr>silent := False\<rparr>"

text \<open>
  \<open>gst_exclusion_set_caps\<close>. A caps structure is a list of named fields;
  \<open>gst_structure_get_int\<close> is the framework's: it writes through its pointer
  when the field is there and holds an int, and leaves the target as it was
  otherwise. The source drops what it returns. The result of the function is
  that of \<open>gst_pad_set_caps\<close> on the other pad, a parameter here.
\<close>

datatype GValue = G_INT gint | G_OTHER

type_synonym GstStructure = "(string \<times> GValue) list"

definition gst_structure_get_int :: "GstStructure \<Rightarrow> string \<Rightarrow> gint \<Rightarrow> bool \<times> gint" where
  "gst_structure_get_int structure name target =
     (case map_of structure name of
        Some (G_INT v) \<Rightarrow> (True, v)
      | Some G_OTHER \<Rightarrow> (False, target)
      | None \<Rightarrow> (False, target))"

definition gst_exclusion_set_caps ::
  "(GstStructure \<Rightarrow> bool) \<Rightarrow> Gstexclusion \<Rightarrow> GstStructure \<Rightarrow> bool \<times> Gstexclusion" where
  "gst_exclusion_set_caps gst_pad_set_caps filt structure =
     (let filt = filt\<lparr>width := snd (gst_structure_get_int structure ''width'' (width filt))\<rparr>;
          filt = filt\<lparr>height := snd (gst_structure_get_int structure ''height'' (height filt))\<rparr>
      in (gst_pad_set_caps structure, filt))"

text \<open>
  \<open>gst_exclusion_chain\<close>. Its frame computation, from \<open>gst_buffer_copy\<close> to
  the call of \<open>transform\<close>, is \<open>process_frame\<close>: the output buffer starts as a
  copy of the input buffer, and \<open>transform\<close> runs from the start of both with
  \<open>video_size = width * height\<close>, a \<open>gint\<close> product, taken modulo \<open>2 ^ 32\<close>
  as two's complement hardware computes it (C leaves its overflow undefined).
  \<open>gst_exclusion_chain\<close> then hands the output buffer to \<open>gst_pad_push\<close>,
  the framework's and a parameter here, and returns what it returns.
\<close>

definition process_frame :: "heap \<Rightarrow> addr \<Rightarrow> gint \<Rightarrow> gint \<Rightarrow> fault + heap \<times> addr" where
  "process_frame h in_buf w ht =
     (case gst_buffer_copy h in_buf of
        Inl e \<Rightarrow> Inl e
      | Inr (h1, out_buf) \<Rightarrow>
          (let src = (in_buf, 0);
               dest = (out_buf, 0);
               video_size = w * ht
           in case transform src dest video_size h1 of
                Inl e \<Rightarrow> Inl e
              | Inr h2 \<Rightarrow> Inr (h2, out_buf)))"

definition gst_exclusion_chain ::
  "(heap \<Rightarrow> addr \<Rightarrow> 'r) \<Rightarrow> Gstexclusion \<Rightarrow> heap \<Rightarrow> addr \<Rightarrow> fault + 'r \<times> heap \<times> addr" where
  "gst_exclusion_chain gst_pad_push filt h in_buf =
     (case process_frame h in_buf (width filt) (height filt) of
        Inl e \<Rightarrow> Inl e
      | Inr (h2, out_buf) \<Rightarrow> Inr (gst_pad_push h2 out_buf, h2, out_buf))"

text \<open>The frame a result carries: the data of the output buffer.\<close>

definition frame_of :: "fault + heap \<times> addr \<Rightarrow> fault + guint32 list" where
  "frame_of res = (case res of Inl e \<Rightarrow> Inl e | Inr (h, b) \<Rightarrow> Inr (h ! b))"

text \<open>A downstream element that accepts every buffer.\<close>

datatype GstFlowReturn = GST_FLOW_OK | GST_FLOW_ERROR

definition downstream_ok :: "heap \<Rightarrow> addr \<Rightarrow> GstFlowReturn" where
  "downstream_ok h b = GST_FLOW_OK"

text \<open>One that refuses every buffer.\<close>

definition downstream_error :: "heap \<Rightarrow> addr \<Rightarrow> GstFlowReturn" where
  "downstream_error h b = GST_FLOW_ERROR"

subsection \<open>The formula as the specification words it\<close>

text \<open>
  The specification gives the three formulas over the integers, with division
  truncating towards zero (\<open>sdiv\<close>), and a clamp into \<open>[0, 255]\<close>. These
  definitions follow its words; the theorems below compare them with the
  definitions taken from the source.
\<close>

definition spec_red :: "int \<Rightarrow> int \<Rightarrow> int" where
  "spec_red red green =
     175 - ((((175 - red) * (175 - red)) sdiv 175) + ((green * red) sdiv 175))"

definition spec_green :: "int \<Rightarrow> int" where
  "spec_green green =
     175 - ((((175 - green) * (175 - green)) sdiv 175) + ((green * green) sdiv 175))"

definition spec_blue :: "int \<Rightarrow> int" where
  "spec_blue blue =
     175 - ((((175 - blue) * (175 - blue)) sdiv 175) + ((blue * blue) sdiv 175))"

definition spec_gate :: "int \<Rightarrow> int" where
  "spec_gate k = (if k < 0 then 0 else if 255 < k then 255 else k)"

section \<open>Arithmetic of one channel\<close>

lemma uint_of_int_small:
  "0 \<le> k \<Longrightarrow> k < 2 ^ 32 \<Longrightarrow> uint (word_of_int k :: 32 word) = k"
  by (simp add: uint_word_of_int)

lemma sint_of_int_small:
  "- (2 ^ 31) \<le> k \<Longrightarrow> k < 2 ^ 31 \<Longrightarrow> sint (word_of_int k :: 32 word) = k"
  by (simp add: sint_sbintrunc' signed_take_bit_int_eq_self)

lemma square_bound:
  fixes c :: int
  assumes "0 \<le> c" "c \<le> 255"
  shows "0 \<le> (175 - c) * (175 - c)" "(175 - c) * (175 - c) \<le> 30625"
proof -
  show "0 \<le> (175 - c) * (175 - c)" by simp
  have "\<bar>175 - c\<bar> \<le> 175" using assms by simp
  then have "\<bar>175 - c\<bar> * \<bar>175 - c\<bar> \<le> 175 * 175"
    by (intro mult_mono) simp_all
  then show "(175 - c) * (175 - c) \<le> 30625"
    by (simp add: abs_mult_self_eq)
qed

lemma product_bound:
  fixes c d :: int
  assumes "0 \<le> c" "c \<le> 255" "0 \<le> d" "d \<le> 255"
  shows "0 \<le> d * c" "d * c \<le> 65025"
proof -
  show "0 \<le> d * c" using assms by simp
  have "d * c \<le> 255 * 255" using assms by (intro mult_mono) simp_all
  then show "d * c \<le> 65025" by simp
qed

lemma div175_bounds:
  fixes k n :: int
  assumes "0 \<le> k" "k \<le> n * 175"
  shows "0 \<le> k div 175" "k div 175 \<le> n"
proof -
  show "0 \<le> k div 175"
    using assms(1) by (simp add: pos_imp_zdiv_nonneg_iff)
  have "k div 175 \<le> (n * 175) div 175"
    using assms(2) by (intro zdiv_mono1) simp_all
  then show "k div 175 \<le> n" by simp
qed

lemma chan_core:
  fixes c d :: guint32
  assumes "c \<le> 255" "d \<le> 255"
  shows "sint (factor - ((((factor - c) * (factor - c)) div factor) + ((d * c) div factor)))
       = 175 - (((175 - uint c) * (175 - uint c)) div 175 + (uint d * uint c) div 175)"
proof -
  have c: "0 \<le> uint c" "uint c \<le> 255" using assms(1) by (simp_all add: word_le_def)
  have d: "0 \<le> uint d" "uint d \<le> 255" using assms(2) by (simp_all add: word_le_def)
  let ?sq = "(175 - uint c) * (175 - uint c)"
  let ?pr = "uint d * uint c"
  have sqb: "0 \<le> ?sq" "?sq \<le> 30625" using square_bound [OF c] by simp_all
  have prb: "0 \<le> ?pr" "?pr \<le> 65025" using product_bound [OF c d] by simp_all
  have "(factor - c) * (factor - c) = (word_of_int ?sq :: 32 word)"
    by (simp add: factor_def)
  then have "uint ((factor - c) * (factor - c)) = uint (word_of_int ?sq :: 32 word)"
    by (rule arg_cong)
  also have "\<dots> = ?sq"
    using sqb by (intro uint_of_int_small) simp_all
  finally have sq: "uint ((factor - c) * (factor - c)) = ?sq" .
  have "d * c = (word_of_int ?pr :: 32 word)" by simp
  then have "uint (d * c) = uint (word_of_int ?pr :: 32 word)"
    by (rule arg_cong)
  also have "\<dots> = ?pr"
    using prb by (intro uint_of_int_small) simp_all
  finally have pr: "uint (d * c) = ?pr" .
  have f: "uint factor = 175" by (simp add: factor_def)
  have q1: "uint (((factor - c) * (factor - c)) div factor) = ?sq div 175"
    by (simp only: uint_div sq f)
  have q2: "uint ((d * c) div factor) = ?pr div 175"
    by (simp only: uint_div pr f)
  have b1: "0 \<le> ?sq div 175" "?sq div 175 \<le> 175"
    using div175_bounds [of ?sq 175] sqb by simp_all
  have b2: "0 \<le> ?pr div 175" "?pr div 175 \<le> 372"
    using div175_bounds [of ?pr 372] prb by simp_all
  let ?s = "?sq div 175 + ?pr div 175"
  have "factor - ((((factor - c) * (factor - c)) div factor) + ((d * c) div factor))
        = (word_of_int (175 - ?s) :: 32 word)"
    unfolding q1 [symmetric] q2 [symmetric] by (simp add: factor_def)
  then have "sint (factor - ((((factor - c) * (factor - c)) div factor) + ((d * c) div factor)))
        = sint (word_of_int (175 - ?s) :: 32 word)"
    by (rule arg_cong)
  also have "\<dots> = 175 - ?s"
    using b1 b2 by (intro sint_of_int_small) simp_all
  finally show ?thesis .
qed

section \<open>Packing and unpacking\<close>

lemma byte_take_bit:
  fixes w :: guint32
  assumes "w \<le> 255"
  shows "take_bit 8 w = w"
proof -
  have "w < 2 ^ 8" using assms by (simp add: word_le_def word_less_def)
  then have "w AND mask 8 = w" by (rule less_mask_eq)
  then show ?thesis by (simp add: take_bit_eq_mask)
qed

lemma byte_bit:
  fixes w :: guint32
  assumes "w \<le> 255" "bit w n"
  shows "n < 8"
proof -
  have "bit (take_bit 8 w) n" using assms by (simp add: byte_take_bit)
  then show ?thesis by (simp add: bit_take_bit_iff)
qed

lemma and_255_take_bit:
  fixes w :: guint32
  shows "w AND 0xff = take_bit 8 w"
  using take_bit_eq_mask [of 8 w] by (simp add: mask_eq_exp_minus_1)

lemma unpack_pack_take_bit:
  fixes a r g b :: guint32
  shows "red_of (push_bit 24 a OR push_bit 16 (take_bit 8 r) OR push_bit 8 (take_bit 8 g) OR take_bit 8 b)
           = take_bit 8 r"
    and "green_of (push_bit 24 a OR push_bit 16 (take_bit 8 r) OR push_bit 8 (take_bit 8 g) OR take_bit 8 b)
           = take_bit 8 g"
    and "blue_of (push_bit 24 a OR push_bit 16 (take_bit 8 r) OR push_bit 8 (take_bit 8 g) OR take_bit 8 b)
           = take_bit 8 b"
  unfolding red_of_def green_of_def blue_of_def and_255_take_bit
  by (auto intro!: bit_word_eqI simp add: bit_simps)

lemma unpack_pack:
  fixes a r g b :: guint32
  assumes "r \<le> 255" "g \<le> 255" "b \<le> 255"
  shows "red_of (push_bit 24 a OR push_bit 16 r OR push_bit 8 g OR b) = r"
    and "green_of (push_bit 24 a OR push_bit 16 r OR push_bit 8 g OR b) = g"
    and "blue_of (push_bit 24 a OR push_bit 16 r OR push_bit 8 g OR b) = b"
  using unpack_pack_take_bit [of a r g b] assms by (simp_all add: byte_take_bit)

lemma pack_top_zero_take_bit:
  fixes r g b :: guint32
  shows "drop_bit 24 (push_bit 16 (take_bit 8 r) OR push_bit 8 (take_bit 8 g) OR take_bit 8 b) = 0"
  by (auto intro!: bit_word_eqI simp add: bit_simps)

lemma pack_top_zero:
  fixes r g b :: guint32
  assumes "r \<le> 255" "g \<le> 255" "b \<le> 255"
  shows "drop_bit 24 (push_bit 16 r OR push_bit 8 g OR b) = 0"
  using pack_top_zero_take_bit [of r g b] assms by (simp add: byte_take_bit)

lemma unpack_pack3:
  fixes r g b :: guint32
  assumes "r \<le> 255" "g \<le> 255" "b \<le> 255"
  shows "red_of (push_bit 16 r OR push_bit 8 g OR b) = r"
    and "green_of (push_bit 16 r OR push_bit 8 g OR b) = g"
    and "blue_of (push_bit 16 r OR push_bit 8 g OR b) = b"
  using unpack_pack [OF assms, of 0] by simp_all

lemma channel_le_255:
  "red_of p \<le> 255" "green_of p \<le> 255" "blue_of p \<le> 255"
  by (simp_all add: red_of_def green_of_def blue_of_def word_and_le1)

section \<open>The source's formulas against the specification's\<close>

lemma sdiv_175_nonneg:
  fixes k :: int
  assumes "0 \<le> k"
  shows "k sdiv 175 = k div 175"
  using assms by (simp add: signed_divide_int_def sgn_if)

lemma spec_channel_eq:
  fixes c d :: int
  assumes "0 \<le> c" "0 \<le> d"
  shows "175 - ((((175 - c) * (175 - c)) sdiv 175) + ((d * c) sdiv 175))
       = 175 - (((175 - c) * (175 - c)) div 175 + (d * c) div 175)"
proof -
  have "0 \<le> (175 - c) * (175 - c)" by simp
  then have "((175 - c) * (175 - c)) sdiv 175 = ((175 - c) * (175 - c)) div 175"
    by (rule sdiv_175_nonneg)
  moreover have "0 \<le> d * c" using assms by simp
  then have "(d * c) sdiv 175 = (d * c) div 175"
    by (rule sdiv_175_nonneg)
  ultimately show ?thesis by simp
qed

lemma spec_channel_le:
  fixes c d :: int
  assumes "0 \<le> c" "0 \<le> d"
  shows "175 - (((175 - c) * (175 - c)) div 175 + (d * c) div 175) \<le> 175"
proof -
  have "0 \<le> (175 - c) * (175 - c)" by simp
  then have "0 \<le> ((175 - c) * (175 - c)) div 175"
    by (simp only: pos_imp_zdiv_nonneg_iff) 
  moreover have "0 \<le> d * c" using assms by simp
  then have "0 \<le> (d * c) div 175"
    by (simp add: pos_imp_zdiv_nonneg_iff)
  ultimately show ?thesis by linarith
qed

lemma exclusion_red_sint:
  assumes "r \<le> 255" "g \<le> 255"
  shows "sint (exclusion_red r g) = spec_red (uint r) (uint g)"
  unfolding exclusion_red_def spec_red_def
  by (simp only: chan_core [OF assms] spec_channel_eq [OF uint_ge_0 uint_ge_0])

lemma exclusion_green_sint:
  assumes "g \<le> 255"
  shows "sint (exclusion_green g) = spec_green (uint g)"
  unfolding exclusion_green_def spec_green_def
  by (simp only: chan_core [OF assms assms] spec_channel_eq [OF uint_ge_0 uint_ge_0])

lemma exclusion_blue_sint:
  assumes "b \<le> 255"
  shows "sint (exclusion_blue b) = spec_blue (uint b)"
  unfolding exclusion_blue_def spec_blue_def
  by (simp only: chan_core [OF assms assms] spec_channel_eq [OF uint_ge_0 uint_ge_0])

lemma exclusion_le_factor:
  assumes "r \<le> 255" "g \<le> 255"
  shows "sint (exclusion_red r g) \<le> 175"
    and "sint (exclusion_green g) \<le> 175"
    and "sint (exclusion_blue g) \<le> 175"
  unfolding exclusion_red_def exclusion_green_def exclusion_blue_def
  by (simp_all only: chan_core [OF assms] chan_core [OF assms(2) assms(2)]
      spec_channel_le [OF uint_ge_0 uint_ge_0])

lemma sint_nonneg_uint:
  fixes v :: gint
  assumes "0 \<le> sint v"
  shows "uint v = sint v"
proof -
  have "sint v < 2 ^ 32" using sint_lt [of v] by simp
  then have "take_bit 32 (sint v) = sint v"
    using assms by (intro take_bit_int_eq_self)
  then show ?thesis by (simp add: uint_sint)
qed

lemma gate_int_uint:
  "uint (gate_int v 0 255) = spec_gate (sint v)"
  by (simp add: gate_int_def spec_gate_def word_sless_alt sint_nonneg_uint)

lemma gate_int_of_int:
  "gate_int v 0 255 = word_of_int (spec_gate (sint v))"
proof -
  have "gate_int v 0 255 = word_of_int (uint (gate_int v 0 255))" by simp
  then show ?thesis by (simp only: gate_int_uint)
qed

lemma gate_int_le_255:
  "gate_int v 0 255 \<le> 255"
  by (simp add: word_le_def gate_int_uint spec_gate_def)

lemma gate_int_le_factor:
  assumes "sint v \<le> 175"
  shows "gate_int v 0 255 \<le> 175"
  using assms by (simp add: word_le_def gate_int_uint spec_gate_def)

lemma transform_pixel_pack:
  "transform_pixel p =
     push_bit 16 (gate_int (exclusion_red (red_of p) (green_of p)) 0 255)
       OR push_bit 8 (gate_int (exclusion_green (green_of p)) 0 255)
       OR gate_int (exclusion_blue (blue_of p)) 0 255"
  by (simp add: transform_pixel_def Let_def)

section \<open>Known values\<close>

text \<open>
  C4. For the pixel whose three channels are 255: \<open>(175 - 255)\<^sup>2 / 175\<close> is 36
  and \<open>255 * 255 / 175\<close> is 371, each channel becomes \<open>175 - (36 + 371)\<close>, which
  read as a \<open>gint\<close> is \<open>-232\<close>; \<open>gate_int\<close> turns it into 0 and the pixel
  written is 0.
\<close>

theorem transform_pixel_white:
  "red_of 0xFFFFFF = 255 \<and> green_of 0xFFFFFF = 255 \<and> blue_of 0xFFFFFF = 255
   \<and> ((factor - 255) * (factor - 255)) div factor = 36
   \<and> ((255 :: guint32) * 255) div factor = 371
   \<and> sint (exclusion_red 255 255) = - 232
   \<and> sint (exclusion_green 255) = - 232
   \<and> sint (exclusion_blue 255) = - 232
   \<and> gate_int (exclusion_red 255 255) 0 255 = 0
   \<and> gate_int (exclusion_green 255) 0 255 = 0
   \<and> gate_int (exclusion_blue 255) 0 255 = 0
   \<and> transform_pixel 0xFFFFFF = 0
   \<and> transform_pixel 0xFFFFFFFF = 0"
  by (simp add: transform_pixel_def red_of_def green_of_def blue_of_def
      exclusion_red_def exclusion_green_def exclusion_blue_def factor_def gate_int_def
      word_sless_alt)



section \<open>The transform of one pixel\<close>

text \<open>
  C1. For a pixel whose channels are \<open>r\<close>, \<open>g\<close> and \<open>b\<close> (each at most 255) and
  whose fourth byte is any \<open>a\<close>, the pixel written is
  \<open>(r' << 16) | (g' << 8) | b'\<close>, where \<open>r'\<close>, \<open>g'\<close> and \<open>b'\<close> are the
  specification's formulas over the integers with truncating division, clamped
  into \<open>[0, 255]\<close>: the one for red multiplies green by red, those for green and
  blue square their own channel. The top byte of the result is zero whatever
  \<open>a\<close> is.
\<close>

theorem transform_pixel_formula:
  fixes a r g b :: guint32
  assumes "r \<le> 255" "g \<le> 255" "b \<le> 255"
  shows "transform_pixel (push_bit 24 a OR push_bit 16 r OR push_bit 8 g OR b)
           = push_bit 16 (word_of_int (spec_gate (spec_red (uint r) (uint g))))
               OR push_bit 8 (word_of_int (spec_gate (spec_green (uint g))))
               OR word_of_int (spec_gate (spec_blue (uint b)))
         \<and> drop_bit 24 (transform_pixel (push_bit 24 a OR push_bit 16 r OR push_bit 8 g OR b)) = 0"
proof -
  let ?p = "push_bit 24 a OR push_bit 16 r OR push_bit 8 g OR b"
  have ch: "red_of ?p = r" "green_of ?p = g" "blue_of ?p = b"
    using unpack_pack [OF assms, of a] by simp_all
  have pk: "transform_pixel ?p =
      push_bit 16 (gate_int (exclusion_red r g) 0 255)
        OR push_bit 8 (gate_int (exclusion_green g) 0 255)
        OR gate_int (exclusion_blue b) 0 255"
    by (simp only: transform_pixel_pack ch)
  have "transform_pixel ?p
          = push_bit 16 (word_of_int (spec_gate (spec_red (uint r) (uint g))))
              OR push_bit 8 (word_of_int (spec_gate (spec_green (uint g))))
              OR word_of_int (spec_gate (spec_blue (uint b)))"
    by (simp only: pk gate_int_of_int exclusion_red_sint [OF assms(1,2)]
        exclusion_green_sint [OF assms(2)] exclusion_blue_sint [OF assms(3)])
  moreover have "drop_bit 24 (transform_pixel ?p) = 0"
    unfolding pk by (rule pack_top_zero) (rule gate_int_le_255)+
  ultimately show ?thesis by (rule conjI)
qed

theorem transform_pixel_formula_witness:
  "(200 :: guint32) \<le> 255 \<and> (100 :: guint32) \<le> 255 \<and> (50 :: guint32) \<le> 255
   \<and> transform_pixel 0x12C86432 = 0x3A5648
   \<and> spec_gate (spec_red 200 100) = 0x3A \<and> spec_gate (spec_green 100) = 0x56
   \<and> spec_gate (spec_blue 50) = 0x48
   \<and> drop_bit 24 (transform_pixel 0x12C86432) = 0"
  using transform_pixel_formula [of 200 100 50 "0x12"]
  by (simp add: spec_gate_def spec_red_def spec_green_def spec_blue_def
      signed_divide_int_def)

text \<open>
  C2. For channel values in \<open>[0, 255]\<close>, each formula computed as the code does,
  in \<open>guint32\<close> arithmetic modulo \<open>2 ^ 32\<close> and read as a \<open>gint\<close>, is the
  formula over the integers with truncating division; after \<open>gate_int\<close> the
  channel is that value clamped into \<open>[0, 255]\<close>.
\<close>

theorem unsigned_formula_exact:
  fixes r g b :: guint32
  assumes "r \<le> 255" "g \<le> 255" "b \<le> 255"
  shows "sint (exclusion_red r g) = spec_red (uint r) (uint g)
       \<and> sint (exclusion_green g) = spec_green (uint g)
       \<and> sint (exclusion_blue b) = spec_blue (uint b)
       \<and> uint (gate_int (exclusion_red r g) 0 255) = spec_gate (spec_red (uint r) (uint g))
       \<and> uint (gate_int (exclusion_green g) 0 255) = spec_gate (spec_green (uint g))
       \<and> uint (gate_int (exclusion_blue b) 0 255) = spec_gate (spec_blue (uint b))"
  by (simp only: gate_int_uint exclusion_red_sint [OF assms(1,2)]
      exclusion_green_sint [OF assms(2)] exclusion_blue_sint [OF assms(3)] simp_thms)

theorem unsigned_formula_exact_witness:
  "(255 :: guint32) \<le> 255 \<and> (10 :: guint32) \<le> 255 \<and> (90 :: guint32) \<le> 255
   \<and> sint (exclusion_red 255 10) = spec_red 255 10 \<and> spec_red 255 10 = 125
   \<and> sint (exclusion_green 10) = spec_green 10 \<and> spec_green 10 = 20
   \<and> sint (exclusion_blue 90) = spec_blue 90 \<and> spec_blue 90 = 88
   \<and> uint (gate_int (exclusion_red 255 10) 0 255) = 125
   \<and> uint (gate_int (exclusion_green 10) 0 255) = 20
   \<and> uint (gate_int (exclusion_blue 90) 0 255) = 88"
  using unsigned_formula_exact [of 255 10 90]
  by (simp add: spec_gate_def spec_red_def spec_green_def spec_blue_def
      signed_divide_int_def)

text \<open>
  C9. For channel values in \<open>[0, 255]\<close>, each formula's value before
  \<open>gate_int\<close>, read as a \<open>gint\<close>, is at most 175: the comparison with 255 in
  \<open>gate_int\<close> never holds, and every channel of the pixel written lies in
  \<open>[0, 175]\<close>.
\<close>

theorem channels_at_most_factor:
  fixes r g b :: guint32
  assumes "r \<le> 255" "g \<le> 255" "b \<le> 255"
  shows "sint (exclusion_red r g) \<le> 175
       \<and> sint (exclusion_green g) \<le> 175
       \<and> sint (exclusion_blue b) \<le> 175
       \<and> \<not> 255 <s exclusion_red r g
       \<and> \<not> 255 <s exclusion_green g
       \<and> \<not> 255 <s exclusion_blue b
       \<and> red_of (transform_pixel (push_bit 16 r OR push_bit 8 g OR b)) \<le> 175
       \<and> green_of (transform_pixel (push_bit 16 r OR push_bit 8 g OR b)) \<le> 175
       \<and> blue_of (transform_pixel (push_bit 16 r OR push_bit 8 g OR b)) \<le> 175"
proof -
  let ?p = "push_bit 16 r OR push_bit 8 g OR b"
  have pre: "sint (exclusion_red r g) \<le> 175" "sint (exclusion_green g) \<le> 175"
      "sint (exclusion_blue b) \<le> 175"
    using exclusion_le_factor [OF assms(1,2)] exclusion_le_factor [OF assms(3,3)]
    by simp_all
  have upper: "\<not> 255 <s exclusion_red r g" "\<not> 255 <s exclusion_green g"
      "\<not> 255 <s exclusion_blue b"
    using pre by (simp_all add: word_sless_alt)
  have ch: "red_of ?p = r" "green_of ?p = g" "blue_of ?p = b"
    by (rule unpack_pack3 [OF assms])+
  let ?r = "gate_int (exclusion_red r g) 0 255"
  let ?g = "gate_int (exclusion_green g) 0 255"
  let ?b = "gate_int (exclusion_blue b) 0 255"
  have pk: "transform_pixel ?p = push_bit 16 ?r OR push_bit 8 ?g OR ?b"
    by (simp only: transform_pixel_pack ch)
  have out: "red_of (transform_pixel ?p) = ?r" "green_of (transform_pixel ?p) = ?g"
      "blue_of (transform_pixel ?p) = ?b"
    unfolding pk by (rule unpack_pack3; rule gate_int_le_255)+
  have "?r \<le> 175" "?g \<le> 175" "?b \<le> 175"
    by (rule gate_int_le_factor, rule pre)+
  then have "red_of (transform_pixel ?p) \<le> 175" "green_of (transform_pixel ?p) \<le> 175"
      "blue_of (transform_pixel ?p) \<le> 175"
    by (simp_all only: out)
  with pre upper show ?thesis by simp
qed

theorem channels_at_most_factor_witness:
  "(0 :: guint32) \<le> 255 \<and> (0 :: guint32) \<le> 255 \<and> (87 :: guint32) \<le> 255
   \<and> sint (exclusion_red 0 0) = 0 \<and> sint (exclusion_green 0) = 0
   \<and> sint (exclusion_blue 87) = 88
   \<and> red_of (transform_pixel 87) \<le> 175 \<and> green_of (transform_pixel 87) \<le> 175
   \<and> blue_of (transform_pixel 87) = 88"
  using channels_at_most_factor [of 0 0 87]
  by (simp add: transform_pixel_def red_of_def green_of_def blue_of_def
      exclusion_red_def exclusion_green_def exclusion_blue_def factor_def gate_int_def
      word_sless_alt)


section \<open>The loop of \<open>transform\<close>\<close>

declare transform_loop.simps [simp del]

lemma sint_succ:
  fixes x va :: gint
  assumes "x <s va"
  shows "sint (x + 1) = sint x + 1"
proof -
  have "sint va < 2 ^ 31" using sint_lt [of va] by simp
  moreover have "- (2 ^ 31) \<le> sint x" using sint_ge [of x] by simp
  ultimately have "signed_take_bit 31 (sint x + 1) = sint x + 1"
    using assms by (intro signed_take_bit_int_eq_self) (simp_all add: word_sless_alt)
  then show ?thesis by (simp add: sint_word_ariths)
qed

lemma transform_loop_done:
  assumes "\<not> x <s va"
  shows "transform_loop src dest va x h = Inr h"
  using assms by (subst transform_loop.simps) simp

lemma transform_loop_step:
  assumes "x <s va" "s < length h" "d < length h" "i < length (h ! s)" "j < length (h ! d)"
  shows "transform_loop (s, i) (d, j) va x h
       = transform_loop (s, Suc i) (d, Suc j) va (x + 1)
           (h[d := (h ! d)[j := transform_pixel (h ! s ! i)]])"
  using assms by (subst transform_loop.simps) (simp add: load_def store_def ptr_incr_def)

lemma transform_loop_fault:
  assumes "x <s va" "\<not> i < length (h ! s) \<or> \<not> j < length (h ! d)" "s < length h" "d < length h"
  shows "transform_loop (s, i) (d, j) va x h = Inl OutOfBounds"
  using assms by (subst transform_loop.simps) (auto simp add: load_def store_def)

lemma transform_loop_run:
  assumes "nat (sint va - sint x) = k" "s < length h" "d < length h" "s \<noteq> d"
    "i + k \<le> length (h ! s)" "j + k \<le> length (h ! d)"
  shows "transform_loop (s, i) (d, j) va x h
       = Inr (h[d := take j (h ! d) @ map transform_pixel (take k (drop i (h ! s)))
                       @ drop (j + k) (h ! d)])"
  using assms
proof (induction k arbitrary: x i j h)
  case 0
  then have "\<not> x <s va" by (simp add: word_sless_alt)
  then have "transform_loop (s, i) (d, j) va x h = Inr h" by (rule transform_loop_done)
  moreover have "h[d := take j (h ! d) @ drop j (h ! d)] = h" by simp
  ultimately show ?case by simp
next
  case (Suc k)
  let ?v = "transform_pixel (h ! s ! i)"
  let ?h = "h[d := (h ! d)[j := ?v]]"
  have less: "x <s va" using Suc.prems(1) by (simp add: word_sless_alt)
  have i: "i < length (h ! s)" and j: "j < length (h ! d)" using Suc.prems by simp_all
  have step: "transform_loop (s, i) (d, j) va x h
        = transform_loop (s, Suc i) (d, Suc j) va (x + 1) ?h"
    using less Suc.prems(2,3) i j by (rule transform_loop_step)
  have hs: "?h ! s = h ! s" using Suc.prems(4) by simp
  have hd: "?h ! d = (h ! d)[j := ?v]" using Suc.prems(3) by simp
  have k: "nat (sint va - sint (x + 1)) = k"
    using Suc.prems(1) by (simp add: sint_succ [OF less])
  have "transform_loop (s, Suc i) (d, Suc j) va (x + 1) ?h
      = Inr (?h[d := take (Suc j) (?h ! d) @ map transform_pixel (take k (drop (Suc i) (?h ! s)))
                       @ drop (Suc j + k) (?h ! d)])"
    using k Suc.prems by (intro Suc.IH) (simp_all add: hs hd)
  also have "?h[d := take (Suc j) (?h ! d) @ map transform_pixel (take k (drop (Suc i) (?h ! s)))
                       @ drop (Suc j + k) (?h ! d)]
      = h[d := take (Suc j) ((h ! d)[j := ?v]) @ map transform_pixel (take k (drop (Suc i) (h ! s)))
                       @ drop (Suc j + k) ((h ! d)[j := ?v])]"
    by (simp only: hs hd list_update_overwrite)
  also have "take (Suc j) ((h ! d)[j := ?v]) = take j (h ! d) @ [?v]"
    using j by (simp add: take_Suc_conv_app_nth)
  also have "drop (Suc j + k) ((h ! d)[j := ?v]) = drop (j + Suc k) (h ! d)"
    by simp
  also have "(take j (h ! d) @ [?v]) @ map transform_pixel (take k (drop (Suc i) (h ! s)))
        @ drop (j + Suc k) (h ! d)
      = take j (h ! d) @ map transform_pixel (take (Suc k) (drop i (h ! s)))
        @ drop (j + Suc k) (h ! d)"
    using i by (simp add: Cons_nth_drop_Suc [symmetric])
  finally show ?case using step by simp
qed

lemma transform_loop_overrun:
  assumes "nat (sint va - sint x) = k" "s < length h" "d < length h" "s \<noteq> d"
    "0 < k" "length (h ! s) < i + k \<or> length (h ! d) < j + k"
  shows "transform_loop (s, i) (d, j) va x h = Inl OutOfBounds"
  using assms
proof (induction k arbitrary: x i j h)
  case 0
  then show ?case by simp
next
  case (Suc k)
  have less: "x <s va" using Suc.prems(1) by (simp add: word_sless_alt)
  show ?case
  proof (cases "i < length (h ! s) \<and> j < length (h ! d)")
    case False
    then have "\<not> i < length (h ! s) \<or> \<not> j < length (h ! d)" by simp
    with less show ?thesis using Suc.prems(2,3) by (rule transform_loop_fault)
  next
    case True
    let ?v = "transform_pixel (h ! s ! i)"
    let ?h = "h[d := (h ! d)[j := ?v]]"
    have step: "transform_loop (s, i) (d, j) va x h
          = transform_loop (s, Suc i) (d, Suc j) va (x + 1) ?h"
      using less Suc.prems(2,3) True by (intro transform_loop_step) simp_all
    have hs: "?h ! s = h ! s" using Suc.prems(4) by simp
    have hd: "?h ! d = (h ! d)[j := ?v]" using Suc.prems(3) by simp
    have k: "nat (sint va - sint (x + 1)) = k"
      using Suc.prems(1) by (simp add: sint_succ [OF less])
    have "0 < k" using True Suc.prems(6) by auto
    then have "transform_loop (s, Suc i) (d, Suc j) va (x + 1) ?h = Inl OutOfBounds"
      using k Suc.prems by (intro Suc.IH) (simp_all add: hs hd)
    with step show ?thesis by simp
  qed
qed

lemma transform_from_start:
  assumes "s < length h" "d < length h" "s \<noteq> d"
  shows "transform (s, 0) (d, 0) va h
       = (if nat (sint va) \<le> length (h ! s) \<and> nat (sint va) \<le> length (h ! d)
          then Inr (h[d := map transform_pixel (take (nat (sint va)) (h ! s))
                            @ drop (nat (sint va)) (h ! d)])
          else Inl OutOfBounds)"
proof (cases "nat (sint va) \<le> length (h ! s) \<and> nat (sint va) \<le> length (h ! d)")
  case True
  have "transform_loop (s, 0) (d, 0) va 0 h
      = Inr (h[d := take 0 (h ! d) @ map transform_pixel (take (nat (sint va)) (drop 0 (h ! s)))
                       @ drop (0 + nat (sint va)) (h ! d)])"
    using assms True by (intro transform_loop_run) simp_all
  with True show ?thesis by (simp add: transform_def)
next
  case False
  then have "0 < nat (sint va)" by auto
  then have "transform_loop (s, 0) (d, 0) va 0 h = Inl OutOfBounds"
    using assms False by (intro transform_loop_overrun [where k = "nat (sint va)"]) auto
  with False show ?thesis by (simp add: transform_def)
qed

lemma transform_no_iteration:
  assumes "sint va \<le> 0"
  shows "transform src dest va h = Inr h"
  unfolding transform_def using assms
  by (intro transform_loop_done) (simp add: word_sless_alt)

section \<open>The frame computation\<close>

lemma process_frame_eq:
  assumes "in_buf < length h"
  shows "process_frame h in_buf w ht
       = (if nat (sint (w * ht)) \<le> length (h ! in_buf)
          then Inr (h @ [map transform_pixel (take (nat (sint (w * ht))) (h ! in_buf))
                          @ drop (nat (sint (w * ht))) (h ! in_buf)], length h)
          else Inl OutOfBounds)"
proof -
  let ?h1 = "h @ [h ! in_buf]"
  have s: "in_buf < length ?h1" and d: "length h < length ?h1" and ne: "in_buf \<noteq> length h"
    using assms by simp_all
  have hs: "?h1 ! in_buf = h ! in_buf" using assms by (simp add: nth_append)
  have hd: "?h1 ! length h = h ! in_buf" by simp
  have upd: "?h1[length h := xs] = h @ [xs]" for xs by simp
  have "transform (in_buf, 0) (length h, 0) (w * ht) ?h1
      = (if nat (sint (w * ht)) \<le> length (h ! in_buf)
         then Inr (h @ [map transform_pixel (take (nat (sint (w * ht))) (h ! in_buf))
                          @ drop (nat (sint (w * ht))) (h ! in_buf)])
         else Inl OutOfBounds)"
    by (simp only: transform_from_start [OF s d ne] hs hd upd simp_thms)
  then show ?thesis
    using assms by (simp add: process_frame_def gst_buffer_copy_def)
qed

lemma process_frame_invalid:
  assumes "\<not> in_buf < length h"
  shows "process_frame h in_buf w ht = Inl InvalidBuffer"
  using assms by (simp add: process_frame_def gst_buffer_copy_def)

lemma process_frame_Inr:
  assumes "process_frame h in_buf w ht = Inr (h2, out)"
  shows "in_buf < length h"
    and "nat (sint (w * ht)) \<le> length (h ! in_buf)"
    and "h2 = h @ [map transform_pixel (take (nat (sint (w * ht))) (h ! in_buf))
                    @ drop (nat (sint (w * ht))) (h ! in_buf)]"
    and "out = length h"
proof -
  show valid: "in_buf < length h"
    using assms process_frame_invalid [of in_buf h w ht] by (cases "in_buf < length h") simp_all
  show "nat (sint (w * ht)) \<le> length (h ! in_buf)"
    using assms process_frame_eq [OF valid, of w ht] by (simp split: if_splits)
  show "h2 = h @ [map transform_pixel (take (nat (sint (w * ht))) (h ! in_buf))
                    @ drop (nat (sint (w * ht))) (h ! in_buf)]"
    using assms process_frame_eq [OF valid, of w ht] by (simp split: if_splits)
  show "out = length h"
    using assms process_frame_eq [OF valid, of w ht] by (simp split: if_splits)
qed

lemma set_caps_dimensions:
  "snd (gst_exclusion_set_caps set_caps filt [(''width'', G_INT w), (''height'', G_INT ht)])
     = filt\<lparr>width := w, height := ht\<rparr>"
  "snd (gst_exclusion_set_caps set_caps filt []) = filt"
  "fst (gst_exclusion_set_caps set_caps filt structure) = set_caps structure"
  by (simp_all add: gst_exclusion_set_caps_def gst_structure_get_int_def Let_def)

lemma chain_Inr:
  assumes "gst_exclusion_chain push filt h in_buf = Inr (ret, h2, out)"
  shows "process_frame h in_buf (width filt) (height filt) = Inr (h2, out)"
    and "ret = push h2 out"
  using assms by (auto simp add: gst_exclusion_chain_def split: sum.splits)

lemmas pixel_eval = transform_pixel_def red_of_def green_of_def blue_of_def
  exclusion_red_def exclusion_green_def exclusion_blue_def factor_def gate_int_def
  word_sless_alt

lemma byte_sint:
  fixes c :: guint32
  assumes "c \<le> 255"
  shows "0 \<le> sint c" "sint c \<le> 255"
proof -
  have u: "uint c \<le> 255" using assms by (simp add: word_le_def)
  have "sint c = signed_take_bit 31 (uint c)" by (simp add: sint_uint)
  also have "\<dots> = uint c"
  proof (rule signed_take_bit_int_eq_self)
    have "- (2 ^ 31) \<le> (0 :: int)" by simp
    also have "0 \<le> uint c" by (rule uint_ge_0)
    finally show "- (2 ^ 31) \<le> uint c" .
    show "uint c < 2 ^ 31" using u by simp
  qed
  finally have "sint c = uint c" .
  then show "0 \<le> sint c" "sint c \<le> 255" using u by simp_all
qed

section \<open>Frames\<close>

text \<open>
  C3. Whenever the frame computation returns a frame, every pixel of it has
  its red, green and blue channels in \<open>[0, 255]\<close>. For a pixel the loop wrote
  (index below \<open>width * height\<close>) the three channels are the values
  \<open>gate_int\<close> returned for the input pixel at that index, and nothing lies
  above them in the pixel; a pixel beyond \<open>width * height\<close> is still the
  copy of the input pixel.
\<close>

theorem output_channels_bounded:
  assumes "process_frame h in_buf w ht = Inr (h2, out)" "i < length (h2 ! out)"
    and "p = h2 ! out ! i" "q = h ! in_buf ! i"
  shows "0 \<le> sint (red_of p) \<and> sint (red_of p) \<le> 255
       \<and> 0 \<le> sint (green_of p) \<and> sint (green_of p) \<le> 255
       \<and> 0 \<le> sint (blue_of p) \<and> sint (blue_of p) \<le> 255
       \<and> (if i < nat (sint (w * ht))
          then red_of p = gate_int (exclusion_red (red_of q) (green_of q)) 0 255
             \<and> green_of p = gate_int (exclusion_green (green_of q)) 0 255
             \<and> blue_of p = gate_int (exclusion_blue (blue_of q)) 0 255
             \<and> drop_bit 24 p = 0
          else p = q)"
proof -
  note r = process_frame_Inr [OF assms(1)]
  let ?n = "nat (sint (w * ht))"
  let ?out = "map transform_pixel (take ?n (h ! in_buf)) @ drop ?n (h ! in_buf)"
  have out: "h2 ! out = ?out" by (simp add: r(3) r(4))
  have bounds: "0 \<le> sint (red_of p) \<and> sint (red_of p) \<le> 255
       \<and> 0 \<le> sint (green_of p) \<and> sint (green_of p) \<le> 255
       \<and> 0 \<le> sint (blue_of p) \<and> sint (blue_of p) \<le> 255"
    by (simp add: byte_sint channel_le_255)
  show ?thesis
  proof (cases "i < ?n")
    case True
    then have "?out ! i = transform_pixel q"
      using r(2) by (simp add: nth_append assms(4))
    then have p: "p = push_bit 16 (gate_int (exclusion_red (red_of q) (green_of q)) 0 255)
        OR push_bit 8 (gate_int (exclusion_green (green_of q)) 0 255)
        OR gate_int (exclusion_blue (blue_of q)) 0 255"
      by (simp only: assms(3) out transform_pixel_pack)
    have "red_of p = gate_int (exclusion_red (red_of q) (green_of q)) 0 255"
      "green_of p = gate_int (exclusion_green (green_of q)) 0 255"
      "blue_of p = gate_int (exclusion_blue (blue_of q)) 0 255"
      unfolding p by (rule unpack_pack3; rule gate_int_le_255)+
    moreover have "drop_bit 24 p = 0"
      unfolding p by (rule pack_top_zero; rule gate_int_le_255)
    ultimately show ?thesis using True bounds by simp
  next
    case False
    then have "?out ! i = q"
      using r(2) assms(2) by (simp add: nth_append assms(4) out)
    then have "p = q" by (simp only: assms(3) out)
    then show ?thesis using False bounds by simp
  qed
qed

theorem output_channels_bounded_witness:
  "process_frame [[0xAB12C864, 0xFFFFFFFF, 0x77000057]] 0 2 1
     = Inr ([[0xAB12C864, 0xFFFFFFFF, 0x77000057], [0x000F0056, 0, 0x77000057]], 1)
   \<and> (0 :: nat) < length ([[0xAB12C864, 0xFFFFFFFF, 0x77000057], [0x000F0056, 0, 0x77000057 :: guint32]] ! 1)
   \<and> sint (red_of 0x000F0056) = 0x0F \<and> sint (green_of 0x000F0056) = 0
   \<and> sint (blue_of 0x000F0056) = 0x56
   \<and> (0 :: nat) < nat (sint (2 * 1 :: gint))
   \<and> red_of 0x000F0056 = gate_int (exclusion_red (red_of 0xAB12C864) (green_of 0xAB12C864)) 0 255
   \<and> drop_bit 24 (0x000F0056 :: guint32) = 0"
proof -
  have run: "process_frame [[0xAB12C864, 0xFFFFFFFF, 0x77000057]] 0 2 1
     = Inr ([[0xAB12C864, 0xFFFFFFFF, 0x77000057], [0x000F0056, 0, 0x77000057]], 1)"
    by (simp add: process_frame_eq pixel_eval)
  show ?thesis
    using output_channels_bounded [OF run, of 0 "0x000F0056" "0xAB12C864"] run
    by (simp add: pixel_eval)
qed

text \<open>
  C6. For a frame of \<open>width * height\<close> pixels the output frame is the
  pointwise map of \<open>transform_pixel\<close> over the input frame: output pixel \<open>i\<close>
  is \<open>transform_pixel\<close> of input pixel \<open>i\<close>. The same input pixel gives
  the same output pixel at whatever index and in whatever frame it stands,
  whatever the other pixels, the dimensions and the rest of the memory are.
\<close>

theorem process_frame_pointwise:
  assumes "in_buf < length h" "sint (w * ht) = int (length (h ! in_buf))"
    and "in_buf' < length h'" "sint (w' * ht') = int (length (h' ! in_buf'))"
    and "i < length (h ! in_buf)" "j < length (h' ! in_buf')"
    and "h ! in_buf ! i = h' ! in_buf' ! j"
  shows "frame_of (process_frame h in_buf w ht) = Inr (map transform_pixel (h ! in_buf))
       \<and> projr (frame_of (process_frame h in_buf w ht)) ! i = transform_pixel (h ! in_buf ! i)
       \<and> projr (frame_of (process_frame h in_buf w ht)) ! i
           = projr (frame_of (process_frame h' in_buf' w' ht')) ! j"
proof -
  have a: "frame_of (process_frame h in_buf w ht) = Inr (map transform_pixel (h ! in_buf))"
    using assms(2) by (simp add: process_frame_eq [OF assms(1)] frame_of_def)
  have b: "frame_of (process_frame h' in_buf' w' ht') = Inr (map transform_pixel (h' ! in_buf'))"
    using assms(4) by (simp add: process_frame_eq [OF assms(3)] frame_of_def)
  show ?thesis
    using assms(5,6,7) by (simp add: a b)
qed

theorem process_frame_pointwise_witness:
  "(0 :: nat) < length [[0x12C86432, 0xFFFFFF, 0x57 :: guint32]]
   \<and> sint (3 * 1 :: gint) = int (length ([[0x12C86432, 0xFFFFFF, 0x57 :: guint32]] ! 0))
   \<and> (1 :: nat) < length [[7 :: guint32], [0x57, 0x12C86432]]
   \<and> sint (1 * 2 :: gint) = int (length ([[7 :: guint32], [0x57, 0x12C86432]] ! 1))
   \<and> [[0x12C86432, 0xFFFFFF, 0x57 :: guint32]] ! 0 ! 0 = [[7 :: guint32], [0x57, 0x12C86432]] ! 1 ! 1
   \<and> frame_of (process_frame [[0x12C86432, 0xFFFFFF, 0x57]] 0 3 1) = Inr [0x3A5648, 0, 0x58]
   \<and> projr (frame_of (process_frame [[0x12C86432, 0xFFFFFF, 0x57]] 0 3 1)) ! 0
       = projr (frame_of (process_frame [[7], [0x57, 0x12C86432]] 1 1 2)) ! 1"
  using process_frame_pointwise [of 0 "[[0x12C86432, 0xFFFFFF, 0x57]]" 3 1
      1 "[[7], [0x57, 0x12C86432]]" 1 2 0 1]
  by (auto simp add: transform_pixel_def red_of_def green_of_def blue_of_def
      exclusion_red_def exclusion_green_def exclusion_blue_def factor_def gate_int_def
      word_sless_alt)

text \<open>
  C5. The output frame is a function of the contents of the input buffer and of
  \<open>width\<close> and \<open>height\<close> alone: two calls on buffers with equal
  contents, with equal dimensions, give equal output frames (or the same
  fault), whatever the addresses of the buffers, the rest of the memory, the
  \<open>silent\<close> flag and the downstream element are.
\<close>

theorem process_frame_deterministic:
  assumes "b1 < length h1" "b2 < length h2" "h1 ! b1 = h2 ! b2"
    and "width f1 = width f2" "height f1 = height f2"
  shows "frame_of (process_frame h1 b1 w ht) = frame_of (process_frame h2 b2 w ht)
       \<and> frame_of (map_sum id snd (gst_exclusion_chain push1 f1 h1 b1))
           = frame_of (map_sum id snd (gst_exclusion_chain push2 f2 h2 b2))"
proof -
  have frame: "frame_of (process_frame h1 b1 w' ht') = frame_of (process_frame h2 b2 w' ht')"
    for w' ht'
    using assms(3)
    by (simp add: process_frame_eq [OF assms(1)] process_frame_eq [OF assms(2)] frame_of_def)
  have chain: "map_sum id snd (gst_exclusion_chain push f h b)
      = process_frame h b (width f) (height f)"
    for push :: "heap \<Rightarrow> addr \<Rightarrow> 'x" and f h b
    by (simp add: gst_exclusion_chain_def split: sum.splits)
  show ?thesis
    using frame [of w ht] frame [of "width f2" "height f2"] assms(4,5)
    by (simp add: chain)
qed

theorem process_frame_deterministic_witness:
  "(0 :: nat) < length [[0x12C86432, 0xFFFFFF :: guint32]]
   \<and> (1 :: nat) < length [[], [0x12C86432, 0xFFFFFF :: guint32], [5]]
   \<and> [[0x12C86432, 0xFFFFFF :: guint32]] ! 0 = [[], [0x12C86432, 0xFFFFFF], [5]] ! 1
   \<and> width \<lparr>silent = False, width = 2, height = 1\<rparr> = width \<lparr>silent = True, width = 2, height = 1\<rparr>
   \<and> height \<lparr>silent = False, width = 2, height = 1\<rparr> = height \<lparr>silent = True, width = 2, height = 1\<rparr>
   \<and> frame_of (process_frame [[0x12C86432, 0xFFFFFF]] 0 2 1) = Inr [0x3A5648, 0]
   \<and> frame_of (process_frame [[], [0x12C86432, 0xFFFFFF], [5]] 1 2 1) = Inr [0x3A5648, 0]
   \<and> frame_of (map_sum id snd (gst_exclusion_chain downstream_ok
          \<lparr>silent = False, width = 2, height = 1\<rparr> [[0x12C86432, 0xFFFFFF]] 0))
       = frame_of (map_sum id snd (gst_exclusion_chain downstream_error
          \<lparr>silent = True, width = 2, height = 1\<rparr> [[], [0x12C86432, 0xFFFFFF], [5]] 1))"
  using process_frame_deterministic [of 0 "[[0x12C86432, 0xFFFFFF]]" 1
      "[[], [0x12C86432, 0xFFFFFF], [5]]" "\<lparr>silent = False, width = 2, height = 1\<rparr>"
      "\<lparr>silent = True, width = 2, height = 1\<rparr>" 2 1 downstream_ok downstream_error]
  by (simp add: process_frame_eq frame_of_def pixel_eval)

text \<open>
  C7. When \<open>gst_exclusion_chain\<close> returns, every buffer that existed before
  the call, the input buffer among them, holds what it held before; the output
  buffer is a buffer that did not exist before the call, with as many pixels
  as the input buffer, and it is the one handed on to \<open>gst_pad_push\<close>.
\<close>

theorem input_frame_unmodified:
  assumes "gst_exclusion_chain push filt h in_buf = Inr (ret, h2, out)"
  shows "in_buf < length h
       \<and> h2 ! in_buf = h ! in_buf
       \<and> take (length h) h2 = h
       \<and> out = length h
       \<and> length h2 = Suc (length h)
       \<and> length (h2 ! out) = length (h ! in_buf)
       \<and> ret = push h2 out"
proof -
  note pf = chain_Inr [OF assms]
  note r = process_frame_Inr [OF pf(1)]
  have "h2 ! in_buf = h ! in_buf" using r(1) by (simp add: r(3) nth_append)
  moreover have "take (length h) h2 = h" by (simp add: r(3))
  moreover have "length h2 = Suc (length h)" by (simp add: r(3))
  moreover have "length (h2 ! out) = length (h ! in_buf)"
    using r(2) by (simp add: r(3) r(4))
  ultimately show ?thesis using r(1) r(4) pf(2) by simp
qed

theorem input_frame_unmodified_witness:
  "gst_exclusion_chain downstream_ok \<lparr>silent = False, width = 2, height = 1\<rparr>
       [[9], [0x12C86432, 0xFFFFFF]] 1
     = Inr (GST_FLOW_OK, [[9], [0x12C86432, 0xFFFFFF], [0x3A5648, 0]], 2)
   \<and> [[9], [0x12C86432, 0xFFFFFF], [0x3A5648, 0 :: guint32]] ! 1 = [[9], [0x12C86432, 0xFFFFFF]] ! 1
   \<and> take (length [[9], [0x12C86432, 0xFFFFFF :: guint32]]) [[9], [0x12C86432, 0xFFFFFF], [0x3A5648, 0]]
       = [[9], [0x12C86432, 0xFFFFFF]]
   \<and> length ([[9], [0x12C86432, 0xFFFFFF], [0x3A5648, 0 :: guint32]] ! 2)
       = length ([[9], [0x12C86432, 0xFFFFFF :: guint32]] ! 1)"
proof -
  have run: "gst_exclusion_chain downstream_ok \<lparr>silent = False, width = 2, height = 1\<rparr>
       [[9], [0x12C86432, 0xFFFFFF]] 1
     = Inr (GST_FLOW_OK, [[9], [0x12C86432, 0xFFFFFF], [0x3A5648, 0]], 2)"
    by (simp add: gst_exclusion_chain_def process_frame_eq downstream_ok_def pixel_eval)
  show ?thesis
    using input_frame_unmodified [OF run] run by simp
qed

text \<open>
  C10. When \<open>width * height\<close>, read as a \<open>gint\<close>, is zero or negative,
  \<open>transform\<close> makes no iteration and leaves the memory as it is, whatever its
  pointers are; \<open>gst_exclusion_chain\<close> then pushes an unmodified copy of the
  input frame and returns what \<open>gst_pad_push\<close> returns, with no error of its
  own.
\<close>

theorem empty_area_copies_input:
  assumes "sint (width filt * height filt) \<le> 0" "in_buf < length h"
  shows "transform src dest (width filt * height filt) h1 = Inr h1
       \<and> gst_exclusion_chain push filt h in_buf
           = Inr (push (h @ [h ! in_buf]) (length h), h @ [h ! in_buf], length h)"
proof -
  have "nat (sint (width filt * height filt)) = 0" using assms(1) by simp
  then have "process_frame h in_buf (width filt) (height filt)
      = Inr (h @ [h ! in_buf], length h)"
    by (simp add: process_frame_eq [OF assms(2)])
  then show ?thesis
    using transform_no_iteration [OF assms(1)] by (simp add: gst_exclusion_chain_def)
qed

theorem empty_area_copies_input_witness:
  "sint (width \<lparr>silent = False, width = 0, height = 0\<rparr> * height \<lparr>silent = False, width = 0, height = 0\<rparr>) \<le> 0
   \<and> sint (width \<lparr>silent = False, width = - 2, height = 3\<rparr> * height \<lparr>silent = False, width = - 2, height = 3\<rparr>) \<le> 0
   \<and> (0 :: nat) < length [[0x12C86432, 0xFFFFFF :: guint32]]
   \<and> transform (0, 0) (1, 0) 0 [[0x12C86432, 0xFFFFFF], [1, 2]] = Inr [[0x12C86432, 0xFFFFFF], [1, 2]]
   \<and> gst_exclusion_chain downstream_ok \<lparr>silent = False, width = 0, height = 0\<rparr> [[0x12C86432, 0xFFFFFF]] 0
       = Inr (GST_FLOW_OK, [[0x12C86432, 0xFFFFFF], [0x12C86432, 0xFFFFFF]], 1)
   \<and> gst_exclusion_chain downstream_ok \<lparr>silent = False, width = - 2, height = 3\<rparr> [[0x12C86432, 0xFFFFFF]] 0
       = Inr (GST_FLOW_OK, [[0x12C86432, 0xFFFFFF], [0x12C86432, 0xFFFFFF]], 1)"
  using empty_area_copies_input [of "\<lparr>silent = False, width = 0, height = 0\<rparr>" 0
      "[[0x12C86432, 0xFFFFFF]]" "(0, 0)" "(1, 0)" "[[0x12C86432, 0xFFFFFF], [1, 2]]" downstream_ok]
    empty_area_copies_input [of "\<lparr>silent = False, width = - 2, height = 3\<rparr>" 0
      "[[0x12C86432, 0xFFFFFF]]" "(0, 0)" "(1, 0)" "[[0x12C86432, 0xFFFFFF], [1, 2]]" downstream_ok]
  by (simp add: downstream_ok_def)

text \<open>
  C8, as the specification states it, fails on the code: on an element that no
  negotiation has configured (\<open>width\<close> and \<open>height\<close> are still 0),
  \<open>gst_exclusion_chain\<close> does not fail. It pushes a copy of the input frame
  downstream and returns the downstream result.
\<close>

theorem unconfigured_chain_does_not_fail:
  "width (gst_exclusion_init zeroed_instance) = 0
   \<and> height (gst_exclusion_init zeroed_instance) = 0
   \<and> \<not> isl (gst_exclusion_chain downstream_ok (gst_exclusion_init zeroed_instance)
          [[0x12C86432, 0xFFFFFF]] 0)
   \<and> gst_exclusion_chain downstream_ok (gst_exclusion_init zeroed_instance)
          [[0x12C86432, 0xFFFFFF]] 0
       = Inr (GST_FLOW_OK, [[0x12C86432, 0xFFFFFF], [0x12C86432, 0xFFFFFF]], 1)"
  by (simp add: gst_exclusion_chain_def process_frame_eq gst_exclusion_init_def
      zeroed_instance_def downstream_ok_def)

text \<open>
  C8, amended. Before any negotiation has set \<open>width\<close> and \<open>height\<close>, a call
  of \<open>gst_exclusion_chain\<close> on an existing buffer reports no error of its
  own: it pushes an unmodified copy of the input frame and returns what
  \<open>gst_pad_push\<close> returns.
\<close>

theorem unconfigured_chain_passes_copy:
  assumes "in_buf < length h"
  shows "gst_exclusion_chain push (gst_exclusion_init zeroed_instance) h in_buf
       = Inr (push (h @ [h ! in_buf]) (length h), h @ [h ! in_buf], length h)"
  using assms
  by (simp add: gst_exclusion_chain_def process_frame_eq gst_exclusion_init_def
      zeroed_instance_def)

theorem unconfigured_chain_passes_copy_witness:
  "(1 :: nat) < length [[3], [0x12C86432, 0xFFFFFF :: guint32]]
   \<and> gst_exclusion_chain downstream_ok (gst_exclusion_init zeroed_instance)
         [[3], [0x12C86432, 0xFFFFFF]] 1
       = Inr (GST_FLOW_OK, [[3], [0x12C86432, 0xFFFFFF], [0x12C86432, 0xFFFFFF]], 2)"
  using unconfigured_chain_passes_copy [of 1 "[[3], [0x12C86432, 0xFFFFFF]]" downstream_ok]
  by (simp add: downstream_ok_def)

end
